theory Spec2Isabelle
  imports Complex_Main
begin

unbundle bit_operations_syntax

section \<open>Python numbers\<close>

text \<open>
  The command sets of \<^verbatim>\<open>limitlessled/group/commands/v6.py\<close> compute with Python
  numbers: unbounded integers and floats. An integer is an \<open>int\<close>. A float is an IEEE 754
  binary64 value: a finite one is given by the real number it denotes (zero has no sign
  here: no operation below tells \<open>-0.0\<close> from \<open>0.0\<close>), the others are the two
  infinities and NaN. Exceptions are values of \<open>py_error\<close>; a computation that may raise
  returns \<open>py_error + 'a\<close>, with \<open>Inl\<close> for the exception.
\<close>

datatype pyfloat = Fin real | PInf | NInf | NaN

datatype pynum = IntV int | FloatV pyfloat

datatype py_error =
    TypeError | ValueError | OverflowError | ZeroDivisionError | AttributeError
  | UnsupportedOperation
    \<comment> \<open>the error kind named by the design document; no path of the source raises it\<close>

type_synonym 'a result = "py_error + 'a"

definition and_then :: "'a result \<Rightarrow> ('a \<Rightarrow> 'b result) \<Rightarrow> 'b result" where
  "and_then r f = (case r of Inl e \<Rightarrow> Inl e | Inr x \<Rightarrow> f x)"

subsection \<open>Rounding to binary64\<close>

text \<open>\<open>bit_length n\<close> is the number of binary digits of a positive \<open>n\<close>, and 0 otherwise.\<close>

function bit_length :: "int \<Rightarrow> int" where
  "bit_length n = (if n \<le> 0 then 0 else bit_length (n div 2) + 1)"
  by pat_completeness auto
termination
  by (relation "measure nat") auto

declare bit_length.simps [simp del]

text \<open>For \<open>0 < x\<close>, \<open>ilog2 x\<close> is the exponent \<open>e\<close> with \<open>2 ^ e \<le> x < 2 ^ (e + 1)\<close>.\<close>

definition ilog2 :: "real \<Rightarrow> int" where
  "ilog2 x = (if 1 \<le> x then bit_length \<lfloor>x\<rfloor> - 1 else - bit_length (\<lceil>1 / x\<rceil> - 1))"

definition round_half_even :: "real \<Rightarrow> int" where
  "round_half_even y =
     (let f = \<lfloor>y\<rfloor>; d = y - of_int f
      in if d < 1 / 2 then f else if 1 / 2 < d then f + 1 else if even f then f else f + 1)"

text \<open>
  The spacing of the doubles around \<open>x\<close>: 53 significant bits, and never finer than the
  subnormal spacing \<open>2 ^ -1074\<close>.
\<close>

definition quantum :: "real \<Rightarrow> real" where
  "quantum x = 2 powi (max (ilog2 \<bar>x\<bar> - 52) (- 1074))"

definition round_double :: "real \<Rightarrow> real" where
  "round_double x = (if x = 0 then 0 else of_int (round_half_even (x / quantum x)) * quantum x)"

text \<open>The correctly rounded result of an operation whose exact value is \<open>x\<close>.\<close>

definition to_double :: "real \<Rightarrow> pyfloat" where
  "to_double x =
     (let r = round_double x
      in if 2 ^ 1024 \<le> r then PInf else if r \<le> - (2 ^ 1024) then NInf else Fin r)"

subsection \<open>Float arithmetic\<close>

fun fneg :: "pyfloat \<Rightarrow> pyfloat" where
  "fneg (Fin x) = Fin (- x)"
| "fneg PInf = NInf"
| "fneg NInf = PInf"
| "fneg NaN = NaN"

fun fadd :: "pyfloat \<Rightarrow> pyfloat \<Rightarrow> pyfloat" where
  "fadd NaN _ = NaN"
| "fadd _ NaN = NaN"
| "fadd (Fin x) (Fin y) = to_double (x + y)"
| "fadd PInf NInf = NaN"
| "fadd NInf PInf = NaN"
| "fadd PInf _ = PInf"
| "fadd NInf _ = NInf"
| "fadd (Fin x) PInf = PInf"
| "fadd (Fin x) NInf = NInf"

definition fsub :: "pyfloat \<Rightarrow> pyfloat \<Rightarrow> pyfloat" where
  "fsub a b = fadd a (fneg b)"

fun fsign :: "pyfloat \<Rightarrow> int" where
  "fsign (Fin x) = (if x < 0 then - 1 else if x = 0 then 0 else 1)"
| "fsign PInf = 1"
| "fsign NInf = - 1"
| "fsign NaN = 0"

definition signed_inf :: "int \<Rightarrow> pyfloat" where
  "signed_inf s = (if s = 0 then NaN else if s < 0 then NInf else PInf)"

fun fmul :: "pyfloat \<Rightarrow> pyfloat \<Rightarrow> pyfloat" where
  "fmul NaN _ = NaN"
| "fmul _ NaN = NaN"
| "fmul (Fin x) (Fin y) = to_double (x * y)"
| "fmul a b = signed_inf (fsign a * fsign b)"

text \<open>Division by a divisor that is not zero (Python checks for zero first).\<close>

fun fdiv :: "pyfloat \<Rightarrow> pyfloat \<Rightarrow> pyfloat" where
  "fdiv NaN _ = NaN"
| "fdiv _ NaN = NaN"
| "fdiv (Fin x) (Fin y) = to_double (x / y)"
| "fdiv (Fin x) _ = Fin 0"
| "fdiv a (Fin y) = signed_inf (fsign a * (if y < 0 then - 1 else 1))"
| "fdiv _ _ = NaN"

text \<open>
  Python's \<^verbatim>\<open>float_rem\<close> for a divisor that is not zero: C's \<^verbatim>\<open>fmod\<close>, which is exact and
  has the sign of the dividend, then one addition of the divisor where the signs differ.
  That addition is rounded.
\<close>

definition fmod :: "real \<Rightarrow> real \<Rightarrow> real" where
  "fmod x y = (let q = x / y in x - y * of_int (if 0 \<le> q then \<lfloor>q\<rfloor> else \<lceil>q\<rceil>))"

fun frem :: "pyfloat \<Rightarrow> pyfloat \<Rightarrow> pyfloat" where
  "frem NaN _ = NaN"
| "frem _ NaN = NaN"
| "frem PInf _ = NaN"
| "frem NInf _ = NaN"
| "frem (Fin x) (Fin y) =
     (let m = fmod x y
      in if m \<noteq> 0 then (if (y < 0) \<noteq> (m < 0) then to_double (m + y) else Fin m) else Fin 0)"
| "frem (Fin x) PInf = (if x < 0 then PInf else Fin x)"
| "frem (Fin x) NInf = (if 0 < x then NInf else Fin x)"

subsection \<open>Comparisons\<close>

text \<open>
  Python compares an integer with a float by their exact values; every comparison with
  NaN is false.
\<close>

fun exact :: "pynum \<Rightarrow> pyfloat" where
  "exact (IntV i) = Fin (of_int i)"
| "exact (FloatV f) = f"

fun flt :: "pyfloat \<Rightarrow> pyfloat \<Rightarrow> bool" where
  "flt NaN _ = False"
| "flt _ NaN = False"
| "flt (Fin x) (Fin y) = (x < y)"
| "flt (Fin x) PInf = True"
| "flt (Fin x) NInf = False"
| "flt PInf _ = False"
| "flt NInf NInf = False"
| "flt NInf _ = True"

fun feq :: "pyfloat \<Rightarrow> pyfloat \<Rightarrow> bool" where
  "feq (Fin x) (Fin y) = (x = y)"
| "feq PInf PInf = True"
| "feq NInf NInf = True"
| "feq _ _ = False"

definition py_lt :: "pynum \<Rightarrow> pynum \<Rightarrow> bool" where
  "py_lt a b = flt (exact a) (exact b)"

definition py_gt :: "pynum \<Rightarrow> pynum \<Rightarrow> bool" where
  "py_gt a b = flt (exact b) (exact a)"

definition py_eq :: "pynum \<Rightarrow> pynum \<Rightarrow> bool" where
  "py_eq a b = feq (exact a) (exact b)"

text \<open>
  The builtins \<^verbatim>\<open>max\<close> and \<^verbatim>\<open>min\<close> on three arguments keep the first argument until a
  later one compares strictly greater (smaller), and return the argument itself, with
  its type.
\<close>

definition py_max3 :: "pynum \<Rightarrow> pynum \<Rightarrow> pynum \<Rightarrow> pynum" where
  "py_max3 a b c = (let m = (if py_gt b a then b else a) in if py_gt c m then c else m)"

definition py_min3 :: "pynum \<Rightarrow> pynum \<Rightarrow> pynum \<Rightarrow> pynum" where
  "py_min3 a b c = (let m = (if py_lt b a then b else a) in if py_lt c m then c else m)"

subsection \<open>Arithmetic on numbers\<close>

text \<open>
  Two integers are combined exactly. Otherwise both operands become floats first; the
  conversion of an integer is correctly rounded and raises \<^verbatim>\<open>OverflowError\<close> when the
  integer is too large.
\<close>

definition finite_or_overflow :: "real \<Rightarrow> pyfloat result" where
  "finite_or_overflow x = (case to_double x of Fin r \<Rightarrow> Inr (Fin r) | _ \<Rightarrow> Inl OverflowError)"

fun as_float :: "pynum \<Rightarrow> pyfloat result" where
  "as_float (IntV i) = finite_or_overflow (of_int i)"
| "as_float (FloatV f) = Inr f"

definition float_op :: "(pyfloat \<Rightarrow> pyfloat \<Rightarrow> pyfloat) \<Rightarrow> pynum \<Rightarrow> pynum \<Rightarrow> pynum result" where
  "float_op f a b =
     and_then (as_float a) (\<lambda>x. and_then (as_float b) (\<lambda>y. Inr (FloatV (f x y))))"

fun py_add :: "pynum \<Rightarrow> pynum \<Rightarrow> pynum result" where
  "py_add (IntV i) (IntV j) = Inr (IntV (i + j))"
| "py_add a b = float_op fadd a b"

fun py_sub :: "pynum \<Rightarrow> pynum \<Rightarrow> pynum result" where
  "py_sub (IntV i) (IntV j) = Inr (IntV (i - j))"
| "py_sub a b = float_op fsub a b"

fun py_mul :: "pynum \<Rightarrow> pynum \<Rightarrow> pynum result" where
  "py_mul (IntV i) (IntV j) = Inr (IntV (i * j))"
| "py_mul a b = float_op fmul a b"

text \<open>
  True division: the quotient of two integers is the correctly rounded float of the exact
  quotient, or \<^verbatim>\<open>OverflowError\<close>; a zero divisor raises \<^verbatim>\<open>ZeroDivisionError\<close>.
\<close>

fun py_truediv :: "pynum \<Rightarrow> pynum \<Rightarrow> pynum result" where
  "py_truediv (IntV i) (IntV j) =
     (if j = 0 then Inl ZeroDivisionError
      else and_then (finite_or_overflow (of_int i / of_int j)) (\<lambda>q. Inr (FloatV q)))"
| "py_truediv a b =
     and_then (as_float a) (\<lambda>x. and_then (as_float b) (\<lambda>y.
       if y = Fin 0 then Inl ZeroDivisionError else Inr (FloatV (fdiv x y))))"

fun py_mod :: "pynum \<Rightarrow> pynum \<Rightarrow> pynum result" where
  "py_mod (IntV i) (IntV j) = (if j = 0 then Inl ZeroDivisionError else Inr (IntV (i mod j)))"
| "py_mod a b =
     and_then (as_float a) (\<lambda>x. and_then (as_float b) (\<lambda>y.
       if y = Fin 0 then Inl ZeroDivisionError else Inr (FloatV (frem x y))))"

text \<open>The operator \<^verbatim>\<open>&\<close> is defined on integers only.\<close>

fun py_and :: "pynum \<Rightarrow> pynum \<Rightarrow> pynum result" where
  "py_and (IntV i) (IntV j) = Inr (IntV (i AND j))"
| "py_and _ _ = Inl TypeError"

text \<open>The builtin \<^verbatim>\<open>sum\<close> adds the items to the integer 0, from left to right.\<close>

fun sum_from :: "pynum \<Rightarrow> pynum list \<Rightarrow> pynum result" where
  "sum_from acc [] = Inr acc"
| "sum_from acc (x # xs) = and_then (py_add acc x) (\<lambda>a. sum_from a xs)"

definition py_sum :: "pynum list \<Rightarrow> pynum result" where
  "py_sum xs = sum_from (IntV 0) xs"

text \<open>
  \<^verbatim>\<open>math.ceil\<close> and \<^verbatim>\<open>math.floor\<close> return an integer; an infinity raises
  \<^verbatim>\<open>OverflowError\<close> and NaN raises \<^verbatim>\<open>ValueError\<close>.
\<close>

fun math_ceil :: "pynum \<Rightarrow> int result" where
  "math_ceil (IntV i) = Inr i"
| "math_ceil (FloatV (Fin x)) = Inr \<lceil>x\<rceil>"
| "math_ceil (FloatV NaN) = Inl ValueError"
| "math_ceil (FloatV _) = Inl OverflowError"

fun math_floor :: "pynum \<Rightarrow> int result" where
  "math_floor (IntV i) = Inr i"
| "math_floor (FloatV (Fin x)) = Inr \<lfloor>x\<rfloor>"
| "math_floor (FloatV NaN) = Inl ValueError"
| "math_floor (FloatV _) = Inl OverflowError"

text \<open>A float literal of the source denotes the double nearest to it.\<close>

definition float_lit :: "real \<Rightarrow> pynum" where
  "float_lit x = FloatV (to_double x)"

section \<open>The standard library's \<^verbatim>\<open>colorsys.rgb_to_hsv\<close>\<close>

text \<open>
  \<^verbatim>\<open>
  def rgb_to_hsv(r, g, b):
      maxc = max(r, g, b)
      minc = min(r, g, b)
      rangec = (maxc-minc)
      v = maxc
      if minc == maxc:
          return 0.0, 0.0, v
      s = rangec / maxc
      rc = (maxc-r) / rangec
      gc = (maxc-g) / rangec
      bc = (maxc-b) / rangec
      if r == maxc:
          h = bc-gc
      elif g == maxc:
          h = 2.0+rc-bc
      else:
          h = 4.0+gc-rc
      h = (h/6.0) % 1.0
      return h, s, v
  \<close>
\<close>

definition channel :: "pynum \<Rightarrow> pynum \<Rightarrow> pynum \<Rightarrow> pynum result" where
  "channel maxc x rangec = and_then (py_sub maxc x) (\<lambda>d. py_truediv d rangec)"

definition rgb_to_hsv :: "pynum \<Rightarrow> pynum \<Rightarrow> pynum \<Rightarrow> (pynum \<times> pynum \<times> pynum) result" where
  "rgb_to_hsv r g b =
     (let maxc = py_max3 r g b; minc = py_min3 r g b
      in and_then (py_sub maxc minc) (\<lambda>rangec.
           let v = maxc
           in if py_eq minc maxc then Inr (FloatV (Fin 0), FloatV (Fin 0), v)
              else
                and_then (py_truediv rangec maxc) (\<lambda>s.
                and_then (channel maxc r rangec) (\<lambda>rc.
                and_then (channel maxc g rangec) (\<lambda>gc.
                and_then (channel maxc b rangec) (\<lambda>bc.
                and_then
                  (if py_eq r maxc then py_sub bc gc
                   else if py_eq g maxc then and_then (py_add (FloatV (Fin 2)) rc) (\<lambda>t. py_sub t bc)
                   else and_then (py_add (FloatV (Fin 4)) gc) (\<lambda>t. py_sub t rc)) (\<lambda>h.
                and_then (py_truediv h (FloatV (Fin 6))) (\<lambda>h6.
                and_then (py_mod h6 (FloatV (Fin 1))) (\<lambda>h'.
                  Inr (h', s, v))))))))))"

section \<open>The command sets of wifi bridge version 6\<close>

subsection \<open>Objects\<close>

text \<open>
  Modelled from the spec: the classes of the bridge and of \<^verbatim>\<open>Command\<close> are not among the
  sources. A command set reads the attributes \<^verbatim>\<open>wb1\<close>, \<^verbatim>\<open>wb2\<close> and \<^verbatim>\<open>sn\<close> of its bridge
  and nothing else; the design document gives them as the two session bytes and the
  sequence number that the transport keeps, integers, and the zone as an integer too.
  Whatever else a bridge holds is the extension part of the record. A \<^verbatim>\<open>Command\<close> is
  what its constructor is given: the list of bytes and the group number.
\<close>

record bridge =
  wb1 :: int
  wb2 :: int
  sn :: int

record Command =
  bytes :: "pynum list"
  group_number :: int

text \<open>The four classes derived from \<^verbatim>\<open>CommandSetV6\<close>.\<close>

datatype variant = BridgeLightV6 | WhiteV6 | RgbwV6 | RgbwwV6

record 'b command_set =
  cls :: variant
  cs_bridge :: "'b bridge_scheme"
  cs_group_number :: int
  cs_remote_style :: int

definition PASSWORD_BYTE1 :: int where "PASSWORD_BYTE1 = 0x00"
definition PASSWORD_BYTE2 :: int where "PASSWORD_BYTE2 = 0x00"
definition MAX_COLOR :: int where "MAX_COLOR = 0xFF"
definition MAX_BRIGHTNESS :: int where "MAX_BRIGHTNESS = 0x64"
definition MAX_TEMPERATURE :: int where "MAX_TEMPERATURE = 0x64"

fun REMOTE_STYLE :: "variant \<Rightarrow> int" where
  "REMOTE_STYLE BridgeLightV6 = 0x00"
| "REMOTE_STYLE WhiteV6 = 0x08"
| "REMOTE_STYLE RgbwV6 = 0x08"
| "REMOTE_STYLE RgbwwV6 = 0x07"

text \<open>
  The constructor of each class passes its \<^verbatim>\<open>REMOTE_STYLE\<close> to \<^verbatim>\<open>CommandSetV6.__init__\<close>,
  which stores it. (The step counts it hands on to the base class play no part in the
  construction of commands.)
\<close>

definition new :: "variant \<Rightarrow> 'b bridge_scheme \<Rightarrow> int \<Rightarrow> 'b command_set" where
  "new c b g = \<lparr>cls = c, cs_bridge = b, cs_group_number = g, cs_remote_style = REMOTE_STYLE c\<rparr>"

subsection \<open>Unit conversion\<close>

definition convert_brightness :: "pynum \<Rightarrow> int result" where
  "convert_brightness brightness =
     and_then (py_mul brightness (IntV MAX_BRIGHTNESS)) math_ceil"

definition convert_temperature :: "pynum \<Rightarrow> int result" where
  "convert_temperature temperature =
     and_then (py_mul temperature (IntV MAX_TEMPERATURE)) math_ceil"

definition convert_color :: "pynum \<times> pynum \<times> pynum \<Rightarrow> int result" where
  "convert_color color =
     (case color of (r, g, b) \<Rightarrow>
        and_then (rgb_to_hsv r g b) (\<lambda>(hue, s, v).
        and_then (py_mul hue (IntV MAX_COLOR)) math_floor))"

subsection \<open>The frame\<close>

definition build_command :: "'b command_set \<Rightarrow> pynum \<Rightarrow> pynum \<Rightarrow> Command result" where
  "build_command self cmd_1 cmd_2 =
     (let wb1 = wb1 (cs_bridge self);
          wb2 = wb2 (cs_bridge self);
          sn = sn (cs_bridge self);
          preamble = [IntV 0x80, IntV 0x00, IntV 0x00, IntV 0x00, IntV 0x11,
                      IntV wb1, IntV wb2, IntV 0x00, IntV sn, IntV 0x00];
          cmd = [IntV 0x31, IntV PASSWORD_BYTE1, IntV PASSWORD_BYTE2,
                 IntV (cs_remote_style self), cmd_1, cmd_2, cmd_2, cmd_2, cmd_2];
          zone_selector = [IntV (cs_group_number self), IntV 0x00]
      in and_then (py_sum (cmd @ zone_selector)) (\<lambda>total.
         and_then (py_and total (IntV 0xFF)) (\<lambda>checksum.
           Inr \<lparr>bytes = preamble @ cmd @ zone_selector @ [checksum],
                group_number = cs_group_number self\<rparr>)))"

subsection \<open>The methods of the four classes\<close>

definition with_int :: "int result \<Rightarrow> (pynum \<Rightarrow> 'a result) \<Rightarrow> 'a result" where
  "with_int r f = and_then r (\<lambda>i. f (IntV i))"

definition BridgeLightV6_on :: "'b command_set \<Rightarrow> Command result" where
  "BridgeLightV6_on self = build_command self (IntV 0x03) (IntV 0x03)"

definition BridgeLightV6_off :: "'b command_set \<Rightarrow> Command result" where
  "BridgeLightV6_off self = build_command self (IntV 0x03) (IntV 0x04)"

definition BridgeLightV6_white :: "'b command_set \<Rightarrow> Command result" where
  "BridgeLightV6_white self = build_command self (IntV 0x03) (IntV 0x05)"

definition BridgeLightV6_color :: "'b command_set \<Rightarrow> pynum \<times> pynum \<times> pynum \<Rightarrow> Command result" where
  "BridgeLightV6_color self color =
     with_int (convert_color color) (build_command self (IntV 0x01))"

definition BridgeLightV6_brightness :: "'b command_set \<Rightarrow> pynum \<Rightarrow> Command result" where
  "BridgeLightV6_brightness self brightness =
     with_int (convert_brightness brightness) (build_command self (IntV 0x02))"

definition WhiteV6_on :: "'b command_set \<Rightarrow> Command result" where
  "WhiteV6_on self = build_command self (IntV 0x04) (IntV 0x01)"

definition WhiteV6_off :: "'b command_set \<Rightarrow> Command result" where
  "WhiteV6_off self = build_command self (IntV 0x04) (IntV 0x02)"

definition WhiteV6_night_light :: "'b command_set \<Rightarrow> Command result" where
  "WhiteV6_night_light self = build_command self (IntV 0x04) (IntV 0x05)"

definition WhiteV6_brightness :: "'b command_set \<Rightarrow> pynum \<Rightarrow> Command result" where
  "WhiteV6_brightness self brightness =
     with_int (convert_brightness brightness) (build_command self (IntV 0x03))"

definition WhiteV6_temperature :: "'b command_set \<Rightarrow> pynum \<Rightarrow> Command result" where
  "WhiteV6_temperature self temperature = build_command self (IntV 0x05) temperature"

definition RgbwV6_on :: "'b command_set \<Rightarrow> Command result" where
  "RgbwV6_on self = build_command self (IntV 0x04) (IntV 0x01)"

definition RgbwV6_off :: "'b command_set \<Rightarrow> Command result" where
  "RgbwV6_off self = build_command self (IntV 0x04) (IntV 0x02)"

definition RgbwV6_night_light :: "'b command_set \<Rightarrow> Command result" where
  "RgbwV6_night_light self = build_command self (IntV 0x04) (IntV 0x05)"

definition RgbwV6_white :: "'b command_set \<Rightarrow> Command result" where
  "RgbwV6_white self = build_command self (IntV 0x05) (IntV 0x64)"

definition RgbwV6_color :: "'b command_set \<Rightarrow> pynum \<times> pynum \<times> pynum \<Rightarrow> Command result" where
  "RgbwV6_color self color =
     with_int (convert_color color) (build_command self (IntV 0x01))"

definition RgbwV6_brightness :: "'b command_set \<Rightarrow> pynum \<Rightarrow> Command result" where
  "RgbwV6_brightness self brightness =
     with_int (convert_brightness brightness) (build_command self (IntV 0x03))"

definition RgbwwV6_on :: "'b command_set \<Rightarrow> Command result" where
  "RgbwwV6_on self = build_command self (IntV 0x03) (IntV 0x01)"

definition RgbwwV6_off :: "'b command_set \<Rightarrow> Command result" where
  "RgbwwV6_off self = build_command self (IntV 0x03) (IntV 0x02)"

definition RgbwwV6_night_light :: "'b command_set \<Rightarrow> Command result" where
  "RgbwwV6_night_light self = build_command self (IntV 0x03) (IntV 0x06)"

definition RgbwwV6_white :: "'b command_set \<Rightarrow> Command result" where
  "RgbwwV6_white self = build_command self (IntV 0x03) (IntV 0x05)"

definition RgbwwV6_color :: "'b command_set \<Rightarrow> pynum \<times> pynum \<times> pynum \<Rightarrow> Command result" where
  "RgbwwV6_color self color =
     with_int (convert_color color) (build_command self (IntV 0x01))"

definition RgbwwV6_brightness :: "'b command_set \<Rightarrow> pynum \<Rightarrow> Command result" where
  "RgbwwV6_brightness self brightness =
     with_int (convert_brightness brightness) (build_command self (IntV 0x02))"

subsection \<open>Calling a method\<close>

text \<open>The logical operations, by the names of the methods, with their arguments.\<close>

datatype operation =
    On | Off | White | Night_light
  | Color "pynum \<times> pynum \<times> pynum" | Brightness pynum | Temperature pynum

text \<open>
  Modelled from the spec: the base class \<^verbatim>\<open>CommandSet\<close> of
  \<^verbatim>\<open>limitlessled/group/commands/__init__.py\<close> is not among the sources. The design
  document says of an operation missing from a variant that the source "simply omits
  the method"; so the base class is taken to define none of the seven operations, and
  looking up a name that the object's class does not define raises Python's
  \<^verbatim>\<open>AttributeError\<close>.
\<close>

fun find_method :: "variant \<Rightarrow> operation \<Rightarrow> ('b command_set \<Rightarrow> Command result) option" where
  "find_method BridgeLightV6 On = Some BridgeLightV6_on"
| "find_method BridgeLightV6 Off = Some BridgeLightV6_off"
| "find_method BridgeLightV6 White = Some BridgeLightV6_white"
| "find_method BridgeLightV6 (Color c) = Some (\<lambda>self. BridgeLightV6_color self c)"
| "find_method BridgeLightV6 (Brightness x) = Some (\<lambda>self. BridgeLightV6_brightness self x)"
| "find_method WhiteV6 On = Some WhiteV6_on"
| "find_method WhiteV6 Off = Some WhiteV6_off"
| "find_method WhiteV6 Night_light = Some WhiteV6_night_light"
| "find_method WhiteV6 (Brightness x) = Some (\<lambda>self. WhiteV6_brightness self x)"
| "find_method WhiteV6 (Temperature t) = Some (\<lambda>self. WhiteV6_temperature self t)"
| "find_method RgbwV6 On = Some RgbwV6_on"
| "find_method RgbwV6 Off = Some RgbwV6_off"
| "find_method RgbwV6 Night_light = Some RgbwV6_night_light"
| "find_method RgbwV6 White = Some RgbwV6_white"
| "find_method RgbwV6 (Color c) = Some (\<lambda>self. RgbwV6_color self c)"
| "find_method RgbwV6 (Brightness x) = Some (\<lambda>self. RgbwV6_brightness self x)"
| "find_method RgbwwV6 On = Some RgbwwV6_on"
| "find_method RgbwwV6 Off = Some RgbwwV6_off"
| "find_method RgbwwV6 Night_light = Some RgbwwV6_night_light"
| "find_method RgbwwV6 White = Some RgbwwV6_white"
| "find_method RgbwwV6 (Color c) = Some (\<lambda>self. RgbwwV6_color self c)"
| "find_method RgbwwV6 (Brightness x) = Some (\<lambda>self. RgbwwV6_brightness self x)"
| "find_method _ _ = None"

definition call :: "'b command_set \<Rightarrow> operation \<Rightarrow> Command result" where
  "call self op = (case find_method (cls self) op of None \<Rightarrow> Inl AttributeError | Some m \<Rightarrow> m self)"

text \<open>The operations for which a class has a method.\<close>

fun has_method :: "variant \<Rightarrow> operation \<Rightarrow> bool" where
  "has_method BridgeLightV6 op =
     (case op of On \<Rightarrow> True | Off \<Rightarrow> True | White \<Rightarrow> True | Color c \<Rightarrow> True
      | Brightness x \<Rightarrow> True | _ \<Rightarrow> False)"
| "has_method WhiteV6 op =
     (case op of On \<Rightarrow> True | Off \<Rightarrow> True | Night_light \<Rightarrow> True | Brightness x \<Rightarrow> True
      | Temperature t \<Rightarrow> True | _ \<Rightarrow> False)"
| "has_method RgbwV6 op =
     (case op of On \<Rightarrow> True | Off \<Rightarrow> True | Night_light \<Rightarrow> True | White \<Rightarrow> True
      | Color c \<Rightarrow> True | Brightness x \<Rightarrow> True | _ \<Rightarrow> False)"
| "has_method RgbwwV6 op =
     (case op of On \<Rightarrow> True | Off \<Rightarrow> True | Night_light \<Rightarrow> True | White \<Rightarrow> True
      | Color c \<Rightarrow> True | Brightness x \<Rightarrow> True | _ \<Rightarrow> False)"

subsection \<open>The opcode table of the design document\<close>

text \<open>
  The table of section 4.3 of the design document, to compare the methods with: for each
  variant its remote-style byte, and for each operation of a variant the first command
  byte and the second. The second is a constant, or the conversion of the argument
  (which can raise), or, for the temperature of the white variant, the argument as
  given. A dash of the table is \<open>None\<close>.
\<close>

fun spec_remote_style :: "variant \<Rightarrow> int" where
  "spec_remote_style BridgeLightV6 = 0x00"
| "spec_remote_style WhiteV6 = 0x08"
| "spec_remote_style RgbwV6 = 0x08"
| "spec_remote_style RgbwwV6 = 0x07"

definition converted :: "int result \<Rightarrow> pynum result" where
  "converted r = and_then r (\<lambda>i. Inr (IntV i))"

fun spec_table :: "variant \<Rightarrow> operation \<Rightarrow> (int \<times> pynum result) option" where
  "spec_table BridgeLightV6 On = Some (0x03, Inr (IntV 0x03))"
| "spec_table BridgeLightV6 Off = Some (0x03, Inr (IntV 0x04))"
| "spec_table BridgeLightV6 White = Some (0x03, Inr (IntV 0x05))"
| "spec_table BridgeLightV6 (Color c) = Some (0x01, converted (convert_color c))"
| "spec_table BridgeLightV6 (Brightness x) = Some (0x02, converted (convert_brightness x))"
| "spec_table WhiteV6 On = Some (0x04, Inr (IntV 0x01))"
| "spec_table WhiteV6 Off = Some (0x04, Inr (IntV 0x02))"
| "spec_table WhiteV6 Night_light = Some (0x04, Inr (IntV 0x05))"
| "spec_table WhiteV6 (Brightness x) = Some (0x03, converted (convert_brightness x))"
| "spec_table WhiteV6 (Temperature t) = Some (0x05, Inr t)"
| "spec_table RgbwV6 On = Some (0x04, Inr (IntV 0x01))"
| "spec_table RgbwV6 Off = Some (0x04, Inr (IntV 0x02))"
| "spec_table RgbwV6 White = Some (0x05, Inr (IntV 0x64))"
| "spec_table RgbwV6 Night_light = Some (0x04, Inr (IntV 0x05))"
| "spec_table RgbwV6 (Color c) = Some (0x01, converted (convert_color c))"
| "spec_table RgbwV6 (Brightness x) = Some (0x03, converted (convert_brightness x))"
| "spec_table RgbwwV6 On = Some (0x03, Inr (IntV 0x01))"
| "spec_table RgbwwV6 Off = Some (0x03, Inr (IntV 0x02))"
| "spec_table RgbwwV6 White = Some (0x03, Inr (IntV 0x05))"
| "spec_table RgbwwV6 Night_light = Some (0x03, Inr (IntV 0x06))"
| "spec_table RgbwwV6 (Color c) = Some (0x01, converted (convert_color c))"
| "spec_table RgbwwV6 (Brightness x) = Some (0x02, converted (convert_brightness x))"
| "spec_table _ _ = None"

subsection \<open>The hue of the design document\<close>

text \<open>
  The H component of HSV, in exact arithmetic, to compare \<^verbatim>\<open>convert_color\<close> with: a
  number from 0 up to, but not including, 1; grey has the hue 0.
\<close>

definition spec_hue :: "real \<Rightarrow> real \<Rightarrow> real \<Rightarrow> real" where
  "spec_hue r g b =
     (let M = max r (max g b); m = min r (min g b); d = M - m
      in if d = 0 then 0
         else if r = M then frac ((g - b) / d / 6)
         else if g = M then ((b - r) / d + 2) / 6
         else ((r - g) / d + 4) / 6)"

text \<open>
  What \<^verbatim>\<open>rgb_to_hsv\<close> and \<^verbatim>\<open>convert_color\<close> go on to compute once the three quotients
  \<^verbatim>\<open>(maxc-r) / rangec\<close>, \<^verbatim>\<open>(maxc-g) / rangec\<close> and \<^verbatim>\<open>(maxc-b) / rangec\<close> are taken, from the
  exact values \<open>er\<close>, \<open>eg\<close> and \<open>eb\<close> of the quotients and the branch \<open>k\<close> (1 when
  \<^verbatim>\<open>r == maxc\<close>, else 2 when \<^verbatim>\<open>g == maxc\<close>, else 3).
\<close>

definition hue_byte :: "nat \<Rightarrow> real \<Rightarrow> real \<Rightarrow> real \<Rightarrow> int result" where
  "hue_byte k er eg eb =
     (let rc = Fin (round_double er); gc = Fin (round_double eg); bc = Fin (round_double eb);
          h = (if k = 1 then fsub bc gc
               else if k = 2 then fsub (fadd (Fin 2) rc) bc
               else fsub (fadd (Fin 4) gc) rc)
      in and_then (py_mul (FloatV (frem (fdiv h (Fin 6)) (Fin 1))) (IntV MAX_COLOR)) math_floor)"

section \<open>Properties of the frame\<close>

lemma and_then_Inr [simp]: "and_then (Inr x) f = f x"
  by (simp add: and_then_def)

lemma and_then_Inl [simp]: "and_then (Inl e) f = Inl e"
  by (simp add: and_then_def)

lemma and_then_eq_Inr: "and_then r f = Inr y \<longleftrightarrow> (\<exists>x. r = Inr x \<and> f x = Inr y)"
  by (cases r) simp_all

lemma with_int_eq_Inr: "with_int r f = Inr y \<longleftrightarrow> (\<exists>i. r = Inr i \<and> f (IntV i) = Inr y)"
  by (simp add: with_int_def and_then_eq_Inr)

lemma find_method_None_iff: "find_method v op = None \<longleftrightarrow> \<not> has_method v op"
  by (cases v; cases op) simp_all

text \<open>A sum of integers is an integer; a sum that has met a float is a float or fails.\<close>

lemma sum_from_ints: "sum_from (IntV a) (map IntV xs) = Inr (IntV (a + sum_list xs))"
  by (induction xs arbitrary: a) (simp_all add: add.assoc)

lemma float_op_not_int: "float_op f a b \<noteq> Inr (IntV k)"
  by (auto simp: float_op_def and_then_eq_Inr)

lemma py_add_float_not_int: "py_add (FloatV x) b \<noteq> Inr (IntV k)"
  by (cases b) (simp_all add: float_op_not_int)

lemma py_add_float_not_int': "py_add a (FloatV y) \<noteq> Inr (IntV k)"
  by (cases a) (simp_all add: float_op_not_int)

lemma py_add_cases: "py_add a b = Inr c \<Longrightarrow> (\<exists>i. c = IntV i) \<Longrightarrow> (\<exists>i j. a = IntV i \<and> b = IntV j)"
  by (cases a; cases b) (auto simp: float_op_not_int)

lemma sum_from_float: "sum_from (FloatV x) xs \<noteq> Inr (IntV k)"
proof (induction xs arbitrary: x)
  case Nil
  show ?case by simp
next
  case (Cons y ys)
  show ?case
  proof
    assume "sum_from (FloatV x) (y # ys) = Inr (IntV k)"
    then obtain a where a: "py_add (FloatV x) y = Inr a" and s: "sum_from a ys = Inr (IntV k)"
      by (auto simp: and_then_eq_Inr)
    from a obtain z where "a = FloatV z"
      using py_add_float_not_int [of x y] by (cases a) auto
    with s Cons.IH show False by simp
  qed
qed

lemma sum_from_Int_all_ints:
  "sum_from (IntV a) xs = Inr (IntV k) \<Longrightarrow> \<forall>x \<in> set xs. \<exists>i. x = IntV i"
proof (induction xs arbitrary: a)
  case Nil
  show ?case by simp
next
  case (Cons y ys)
  from Cons.prems obtain c where c: "py_add (IntV a) y = Inr c" and s: "sum_from c ys = Inr (IntV k)"
    by (auto simp: and_then_eq_Inr)
  from s obtain i where i: "c = IntV i"
    using sum_from_float [of _ ys k] by (cases c) auto
  with c obtain j where j: "y = IntV j"
    using py_add_cases [of "IntV a" y c] by auto
  from s i Cons.IH have "\<forall>x \<in> set ys. \<exists>i. x = IntV i" by simp
  with j show ?case by simp
qed

lemma and_255_mod: "(x::int) AND 0xFF = x mod 256"
proof -
  have "x AND mask 8 = x mod 2 ^ 8"
    by (simp only: take_bit_eq_mask [symmetric] take_bit_eq_mod)
  then show ?thesis by (simp add: mask_eq_exp_minus_1)
qed

lemma py_sum_Inr_int: "py_sum xs = Inr (IntV k) \<Longrightarrow> x \<in> set xs \<Longrightarrow> \<exists>i. x = IntV i"
  unfolding py_sum_def by (drule sum_from_Int_all_ints) blast

lemma build_command_int:
  "build_command self (IntV c1) (IntV c2) =
     Inr \<lparr>bytes = map IntV
            [0x80, 0x00, 0x00, 0x00, 0x11, wb1 (cs_bridge self), wb2 (cs_bridge self), 0x00,
             sn (cs_bridge self), 0x00,
             0x31, 0x00, 0x00, cs_remote_style self, c1, c2, c2, c2, c2,
             cs_group_number self, 0x00,
             (0x31 + cs_remote_style self + c1 + c2 + c2 + c2 + c2 + cs_group_number self) mod 256],
          group_number = cs_group_number self\<rparr>"
  by (simp add: build_command_def py_sum_def PASSWORD_BYTE1_def PASSWORD_BYTE2_def Let_def
      and_255_mod add.assoc)

lemma build_command_Inr_int:
  assumes "build_command self (IntV c1) x = Inr cmd"
  shows "\<exists>c2. x = IntV c2"
proof -
  from assms obtain total checksum
    where t: "py_sum [IntV 0x31, IntV PASSWORD_BYTE1, IntV PASSWORD_BYTE2,
                 IntV (cs_remote_style self), IntV c1, x, x, x, x,
                 IntV (cs_group_number self), IntV 0x00] = Inr total"
      and c: "py_and total (IntV 0xFF) = Inr checksum"
    by (auto simp: build_command_def Let_def and_then_eq_Inr)
  from c obtain k where "total = IntV k"
    by (cases total) auto
  with t have "py_sum [IntV 0x31, IntV PASSWORD_BYTE1, IntV PASSWORD_BYTE2,
                 IntV (cs_remote_style self), IntV c1, x, x, x, x,
                 IntV (cs_group_number self), IntV 0x00] = Inr (IntV k)"
    by (simp only:)
  then show ?thesis
    by (rule py_sum_Inr_int) simp
qed

lemmas method_defs =
  BridgeLightV6_on_def BridgeLightV6_off_def BridgeLightV6_white_def
  BridgeLightV6_color_def BridgeLightV6_brightness_def
  WhiteV6_on_def WhiteV6_off_def WhiteV6_night_light_def WhiteV6_brightness_def
  WhiteV6_temperature_def
  RgbwV6_on_def RgbwV6_off_def RgbwV6_night_light_def RgbwV6_white_def
  RgbwV6_color_def RgbwV6_brightness_def
  RgbwwV6_on_def RgbwwV6_off_def RgbwwV6_night_light_def RgbwwV6_white_def
  RgbwwV6_color_def RgbwwV6_brightness_def

lemma with_int_Inr [simp]: "with_int (Inr i) f = f (IntV i)"
  by (simp add: with_int_def)

lemma with_int_Inl [simp]: "with_int (Inl e) f = Inl e"
  by (simp add: with_int_def)

lemma call_args:
  assumes "call (new v b g) op = Inr cmd"
  shows "\<exists>c1 c2. \<forall>b' g'. call (new v b' g') op = build_command (new v b' g') (IntV c1) (IntV c2)"
proof (cases op)
  case (Temperature t)
  with assms have v: "v = WhiteV6"
    by (cases v) (simp_all add: call_def new_def)
  with assms Temperature obtain c2 where "t = IntV c2"
    by (auto simp: call_def new_def WhiteV6_temperature_def dest: build_command_Inr_int)
  with v Temperature show ?thesis
    by (intro exI [of _ 5] exI [of _ c2]) (simp add: call_def new_def WhiteV6_temperature_def)
next
  case (Color c)
  with assms obtain i where i: "convert_color c = Inr i"
    by (cases v) (auto simp: call_def new_def method_defs with_int_eq_Inr)
  from assms Color have "v \<noteq> WhiteV6"
    by (auto simp: call_def new_def)
  with i Color show ?thesis
    by (intro exI [of _ 1] exI [of _ i]) (cases v; simp add: call_def new_def method_defs)
next
  case (Brightness x)
  with assms obtain i where i: "convert_brightness x = Inr i"
    by (cases v) (auto simp: call_def new_def method_defs with_int_eq_Inr)
  with Brightness show ?thesis
    by (intro exI [of _ "if v = BridgeLightV6 \<or> v = RgbwwV6 then 2 else 3"] exI [of _ i])
      (cases v; simp add: call_def new_def method_defs)
next
  case On
  then show ?thesis
    by (intro exI [of _ "if v = BridgeLightV6 \<or> v = RgbwwV6 then 3 else 4"]
        exI [of _ "if v = BridgeLightV6 then 3 else 1"])
      (cases v; simp add: call_def new_def method_defs)
next
  case Off
  then show ?thesis
    by (intro exI [of _ "if v = BridgeLightV6 \<or> v = RgbwwV6 then 3 else 4"]
        exI [of _ "if v = BridgeLightV6 then 4 else 2"])
      (cases v; simp add: call_def new_def method_defs)
next
  case White
  from assms White have "v \<noteq> WhiteV6"
    by (auto simp: call_def new_def)
  with White show ?thesis
    by (intro exI [of _ "if v = RgbwV6 then 5 else 3"]
        exI [of _ "if v = RgbwV6 then 0x64 else 5"])
      (cases v; simp add: call_def new_def method_defs)
next
  case Night_light
  from assms Night_light have "v \<noteq> BridgeLightV6"
    by (auto simp: call_def new_def)
  with Night_light show ?thesis
    by (intro exI [of _ "if v = RgbwwV6 then 3 else 4"]
        exI [of _ "if v = RgbwwV6 then 6 else 5"])
      (cases v; simp add: call_def new_def method_defs)
qed

subsection \<open>Layout and checksum\<close>

text \<open>
  Claim C2. In every command returned, the number at offset 21 is the sum of the numbers
  at offsets 10 to 20 (Python's \<^verbatim>\<open>sum(frame[10:21])\<close>), modulo 256.
\<close>

theorem frame_checksum:
  assumes "call (new v b g) op = Inr cmd"
  shows "\<exists>s. py_sum (take 11 (drop 10 (bytes cmd))) = Inr (IntV s)
           \<and> bytes cmd ! 21 = IntV (s mod 256)"
proof -
  from assms obtain c1 c2
    where "call (new v b g) op = build_command (new v b g) (IntV c1) (IntV c2)"
    using call_args by blast
  with assms have "build_command (new v b g) (IntV c1) (IntV c2) = Inr cmd" by simp
  then show ?thesis
    unfolding build_command_int by (auto simp: new_def py_sum_def add.assoc)
qed

theorem frame_checksum_witness:
  "\<exists>cmd. call (new WhiteV6 \<lparr>wb1 = 0xF0, wb2 = 0xE1, sn = 0xFF\<rparr> 4) Night_light = Inr cmd
     \<and> (\<exists>s. py_sum (take 11 (drop 10 (bytes cmd))) = Inr (IntV s)
           \<and> bytes cmd ! 21 = IntV (s mod 256))"
proof -
  obtain cmd where h: "call (new WhiteV6 \<lparr>wb1 = 0xF0, wb2 = 0xE1, sn = 0xFF\<rparr> 4) Night_light = Inr cmd"
    by (simp add: call_def new_def WhiteV6_night_light_def build_command_int)
  from frame_checksum [OF h] h show ?thesis by blast
qed

lemma cls_new [simp]: "cls (new c b g) = c"
  by (simp add: new_def)

subsection \<open>Independence of the session\<close>

text \<open>
  Claim C10. The checksum does not depend on the session: when a method returns a
  command for one bridge, it returns one for any other bridge, and the two frames, both
  of 22 numbers, agree from offset 10 on (the checksum at offset 21 included) and
  at every offset other than 5, 6 and 8.
\<close>

theorem session_independent:
  fixes b b' :: "'b bridge_scheme"
  assumes "call (new v b g) op = Inr cmd"
  shows "\<exists>cmd'. call (new v b' g) op = Inr cmd'
           \<and> length (bytes cmd') = 22 \<and> length (bytes cmd) = 22
           \<and> drop 10 (bytes cmd') = drop 10 (bytes cmd)
           \<and> bytes cmd' ! 21 = bytes cmd ! 21
           \<and> (\<forall>i < 22. i \<noteq> 5 \<and> i \<noteq> 6 \<and> i \<noteq> 8 \<longrightarrow> bytes cmd' ! i = bytes cmd ! i)"
proof -
  from assms obtain c1 c2
    where c: "\<And>x :: 'b bridge_scheme.
                call (new v x g) op = build_command (new v x g) (IntV c1) (IntV c2)"
    using call_args [of v b g op cmd] by blast
  from assms c have 1: "build_command (new v b g) (IntV c1) (IntV c2) = Inr cmd" by simp
  obtain cmd' where 2: "build_command (new v b' g) (IntV c1) (IntV c2) = Inr cmd'"
    by (simp add: build_command_int)
  have "\<forall>i < 22. i \<noteq> 5 \<and> i \<noteq> 6 \<and> i \<noteq> 8 \<longrightarrow> bytes cmd' ! i = bytes cmd ! i"
    using 1 2 unfolding build_command_int
    by (auto simp: new_def nth_Cons' )
  moreover have "drop 10 (bytes cmd') = drop 10 (bytes cmd)" "length (bytes cmd') = 22"
    "length (bytes cmd) = 22" "bytes cmd' ! 21 = bytes cmd ! 21"
    using 1 2 unfolding build_command_int by (auto simp: new_def)
  ultimately show ?thesis using 2 c by auto
qed

theorem session_independent_witness:
  "\<exists>cmd. call (new BridgeLightV6 \<lparr>wb1 = 0x01, wb2 = 0x02, sn = 0x03\<rparr> 0) White = Inr cmd
     \<and> (\<exists>cmd'. call (new BridgeLightV6 \<lparr>wb1 = 0xA1, wb2 = 0xA2, sn = 0xA3\<rparr> 0) White = Inr cmd'
           \<and> length (bytes cmd') = 22 \<and> length (bytes cmd) = 22
           \<and> drop 10 (bytes cmd') = drop 10 (bytes cmd)
           \<and> bytes cmd' ! 21 = bytes cmd ! 21
           \<and> (\<forall>i < 22. i \<noteq> 5 \<and> i \<noteq> 6 \<and> i \<noteq> 8 \<longrightarrow> bytes cmd' ! i = bytes cmd ! i))"
proof -
  obtain cmd where h: "call (new BridgeLightV6 \<lparr>wb1 = 0x01, wb2 = 0x02, sn = 0x03\<rparr> 0) White = Inr cmd"
    by (simp add: call_def new_def BridgeLightV6_white_def build_command_int)
  from session_independent [OF h, of "\<lparr>wb1 = 0xA1, wb2 = 0xA2, sn = 0xA3\<rparr>"] h
  show ?thesis by blast
qed

subsection \<open>The worked example\<close>

text \<open>
  Claim C7, as amended. For the bridge light with group 3, session bytes \<open>0x11\<close> and
  \<open>0x22\<close> and sequence number \<open>0x05\<close>, \<^verbatim>\<open>on()\<close> returns the frame of the example, with the
  checksum \<open>(0x31 + 0 + 0 + 0 + 3 + 3 + 3 + 3 + 3 + 3 + 0) mod 256 = 0x43\<close>.
\<close>

theorem bridge_light_on_example:
  "call (new BridgeLightV6 \<lparr>wb1 = 0x11, wb2 = 0x22, sn = 0x05\<rparr> 3) On =
     Inr \<lparr>bytes = map IntV
            [0x80, 0x00, 0x00, 0x00, 0x11, 0x11, 0x22, 0x00, 0x05, 0x00,
             0x31, 0x00, 0x00, 0x00, 0x03, 0x03, 0x03, 0x03, 0x03,
             0x03, 0x00, 0x43],
          group_number = 3\<rparr>"
  by (simp add: call_def new_def BridgeLightV6_on_def build_command_int)

text \<open>The frame with the checksum \<open>0x34\<close> of claim C7 is not what \<^verbatim>\<open>on()\<close> returns.\<close>

theorem bridge_light_on_checksum_counterexample:
  "call (new BridgeLightV6 \<lparr>wb1 = 0x11, wb2 = 0x22, sn = 0x05\<rparr> 3) On \<noteq>
     Inr \<lparr>bytes = map IntV
            [0x80, 0x00, 0x00, 0x00, 0x11, 0x11, 0x22, 0x00, 0x05, 0x00,
             0x31, 0x00, 0x00, 0x00, 0x03, 0x03, 0x03, 0x03, 0x03,
             0x03, 0x00, 0x34],
          group_number = 3\<rparr>"
  by (simp add: call_def new_def BridgeLightV6_on_def build_command_int)

subsection \<open>Operations a class does not have\<close>

text \<open>
  Claim C8 fails as stated: calling \<^verbatim>\<open>color\<close> on the white command set raises
  \<^verbatim>\<open>AttributeError\<close>, not \<^verbatim>\<open>UnsupportedOperation\<close>.
\<close>

theorem missing_method_counterexample:
  "call (new WhiteV6 \<lparr>wb1 = 0x11, wb2 = 0x22, sn = 0x05\<rparr> 1) (Color (IntV 255, IntV 0, IntV 0))
     = Inl AttributeError
   \<and> call (new WhiteV6 \<lparr>wb1 = 0x11, wb2 = 0x22, sn = 0x05\<rparr> 1) (Color (IntV 255, IntV 0, IntV 0))
     \<noteq> Inl UnsupportedOperation"
  by (simp add: call_def new_def)

text \<open>
  Claim C8, as amended. Calling an operation for which the class has no method returns
  no frame: the call raises \<^verbatim>\<open>AttributeError\<close>.
\<close>

theorem missing_method_no_frame:
  fixes b :: "'b bridge_scheme"
  assumes "\<not> has_method v op"
  shows "call (new v b g) op = Inl AttributeError"
proof -
  from assms have "find_method v op = (None :: ('b command_set \<Rightarrow> Command result) option)"
    by (simp add: find_method_None_iff)
  then show ?thesis
    by (simp add: call_def)
qed

theorem missing_method_no_frame_witness:
  "\<not> has_method BridgeLightV6 (Temperature (IntV 1))
   \<and> call (new BridgeLightV6 \<lparr>wb1 = 0x31, wb2 = 0x32, sn = 0x33\<rparr> 2) (Temperature (IntV 1))
       = Inl AttributeError"
  using missing_method_no_frame [of BridgeLightV6 "Temperature (IntV 1)"
      "\<lparr>wb1 = 0x31, wb2 = 0x32, sn = 0x33\<rparr>" 2]
  by simp

section \<open>Properties of the unit conversion\<close>

subsection \<open>Rounding stays within integer bounds\<close>

lemma bit_length_nonneg: "0 \<le> bit_length n"
  by (induction n rule: bit_length.induct) (subst bit_length.simps, simp)

lemma bit_length_le: "n < 2 ^ k \<Longrightarrow> bit_length n \<le> int k"
proof (induction k arbitrary: n)
  case 0
  then show ?case by (subst bit_length.simps) simp
next
  case (Suc k)
  show ?case
  proof (cases "n \<le> 0")
    case True
    then show ?thesis by (subst bit_length.simps) simp
  next
    case False
    from Suc.prems have "n div 2 < 2 ^ k" by simp
    then have "bit_length (n div 2) \<le> int k" by (rule Suc.IH)
    with False show ?thesis by (subst bit_length.simps) simp
  qed
qed

lemma ilog2_le:
  assumes "0 < x" "x < 2 ^ k"
  shows "ilog2 x \<le> int k - 1"
proof (cases "1 \<le> x")
  case True
  from assms have "\<lfloor>x\<rfloor> < 2 ^ k"
    by (simp add: floor_less_iff)
  then have "bit_length \<lfloor>x\<rfloor> \<le> int k" by (rule bit_length_le)
  with True show ?thesis by (simp add: ilog2_def)
next
  case False
  have "0 < bit_length (\<lceil>1 / x\<rceil> - 1)"
  proof -
    from False assms have "1 < 1 / x" by simp
    then have "1 < \<lceil>1 / x\<rceil>" by (simp add: less_ceiling_iff)
    then have "0 < \<lceil>1 / x\<rceil> - 1" by simp
    then show ?thesis
      using bit_length_nonneg [of "(\<lceil>1 / x\<rceil> - 1) div 2"]
      by (subst bit_length.simps) simp
  qed
  with False show ?thesis by (simp add: ilog2_def)
qed

lemma quantum_pos: "0 < quantum x"
  by (simp add: quantum_def)

lemma round_half_even_nonneg: "0 \<le> y \<Longrightarrow> 0 \<le> round_half_even y"
  by (simp add: round_half_even_def Let_def)

lemma round_half_even_le:
  assumes "y \<le> of_int n"
  shows "round_half_even y \<le> n"
proof -
  have f: "\<lfloor>y\<rfloor> \<le> n" using assms by (simp add: floor_le_iff)
  show ?thesis
  proof (cases "\<lfloor>y\<rfloor> = n")
    case True
    with assms have "y = of_int n"
      using of_int_floor_le [of y] by linarith
    then show ?thesis by (simp add: round_half_even_def)
  next
    case False
    with f have "\<lfloor>y\<rfloor> + 1 \<le> n" by simp
    then show ?thesis by (simp add: round_half_even_def Let_def)
  qed
qed

lemma round_double_nonneg: "0 \<le> x \<Longrightarrow> 0 \<le> round_double x"
  using quantum_pos [of x]
  by (simp add: round_double_def round_half_even_nonneg)

text \<open>An integer below \<open>2 ^ 53\<close> is a double, and rounding never crosses it.\<close>

lemma round_double_le_int:
  assumes "0 \<le> x" "x \<le> of_int n" "n < 2 ^ 53"
  shows "round_double x \<le> of_int n"
proof (cases "x = 0")
  case True
  with assms show ?thesis by (simp add: round_double_def)
next
  case False
  define e where "e = max (ilog2 \<bar>x\<bar> - 52) (- 1074)"
  have q: "quantum x = 2 powi e" by (simp add: quantum_def e_def)
  from assms False have "0 < x" "x < 2 ^ 53"
    by simp_all
  then have "ilog2 \<bar>x\<bar> \<le> 52"
    using ilog2_le [of x 53] by simp
  then have e: "e \<le> 0" by (simp add: e_def)
  then have inv: "1 / (2 powi e :: real) = 2 ^ nat (- e)"
    by (simp add: power_int_def power_one_over)
  have "x / quantum x \<le> of_int n / quantum x"
    using assms quantum_pos [of x] by (simp add: divide_right_mono)
  also have "of_int n / quantum x = of_int (n * 2 ^ nat (- e))"
    using inv by (simp add: q field_simps)
  finally have "round_half_even (x / quantum x) \<le> n * 2 ^ nat (- e)"
    by (rule round_half_even_le)
  then have "of_int (round_half_even (x / quantum x)) * quantum x
      \<le> of_int (n * 2 ^ nat (- e)) * quantum x"
    using quantum_pos [of x] by (simp only: mult_le_cancel_right_pos of_int_le_iff)
  also have "\<dots> = of_int n"
    using inv by (simp add: q field_simps)
  finally show ?thesis using False by (simp add: round_double_def)
qed

subsection \<open>The rounding is to a nearest double\<close>

text \<open>
  \<open>ilog2\<close> is the binary exponent, so that \<open>quantum x\<close> is the spacing of the doubles in
  the binade of \<open>x\<close>.
\<close>

lemma bit_length_pos: "0 < n \<Longrightarrow> 0 < bit_length n"
  using bit_length_nonneg [of "n div 2"] by (subst bit_length.simps) simp

lemma bit_length_bounds:
  "0 < n \<Longrightarrow> 2 ^ nat (bit_length n - 1) \<le> n \<and> n < 2 ^ nat (bit_length n)"
proof (induction n rule: bit_length.induct)
  case (1 n)
  show ?case
  proof (cases "n div 2 \<le> 0")
    case True
    with "1.prems" have "n = 1" by linarith
    then show ?thesis
      by (simp add: bit_length.simps [of 1] bit_length.simps [of 0])
  next
    case False
    then have p: "0 < n div 2" by simp
    with "1.IH" "1.prems" have ih: "2 ^ nat (bit_length (n div 2) - 1) \<le> n div 2"
      "n div 2 < 2 ^ nat (bit_length (n div 2))"
      by simp_all
    have k: "0 < bit_length (n div 2)" using p by (rule bit_length_pos)
    have bl: "bit_length n = bit_length (n div 2) + 1"
      using "1.prems" by (subst bit_length.simps) simp
    have e1: "nat (bit_length n - 1) = Suc (nat (bit_length (n div 2) - 1))"
      using k bl by simp
    have e2: "nat (bit_length n) = Suc (nat (bit_length (n div 2)))"
      using k bl by simp
    from ih(1) have "2 * 2 ^ nat (bit_length (n div 2) - 1) \<le> n" by linarith
    moreover from ih(2) have "n < 2 * 2 ^ nat (bit_length (n div 2))" by linarith
    ultimately show ?thesis unfolding e1 e2 by simp
  qed
qed

lemma ilog2_correct:
  assumes "0 < x"
  shows "2 powi ilog2 x \<le> x \<and> x < 2 powi (ilog2 x + 1)"
proof (cases "1 \<le> x")
  case True
  then have p: "0 < \<lfloor>x\<rfloor>" by simp
  let ?k = "bit_length \<lfloor>x\<rfloor>"
  from p have k: "0 < ?k" by (rule bit_length_pos)
  from bit_length_bounds [OF p]
  have b: "2 ^ nat (?k - 1) \<le> \<lfloor>x\<rfloor>" "\<lfloor>x\<rfloor> < 2 ^ nat ?k" by simp_all
  from b(1) have "(2 :: real) ^ nat (?k - 1) \<le> x"
    by (simp add: le_floor_iff)
  moreover from b(2) have "x < 2 ^ nat ?k"
    by (simp add: floor_less_iff)
  moreover have "(2 :: real) powi (?k - 1) = 2 ^ nat (?k - 1)" "(2 :: real) powi ?k = 2 ^ nat ?k"
    using k by (simp_all add: power_int_def)
  ultimately show ?thesis using True by (simp add: ilog2_def)
next
  case False
  with assms have x1: "1 < 1 / x" by simp
  let ?N = "\<lceil>1 / x\<rceil>"
  let ?k = "bit_length (?N - 1)"
  from x1 have p: "0 < ?N - 1" by (simp add: less_ceiling_iff)
  then have k: "0 < ?k" by (rule bit_length_pos)
  from bit_length_bounds [OF p]
  have b: "2 ^ nat (?k - 1) \<le> ?N - 1" "?N - 1 < 2 ^ nat ?k" by simp_all
  from b(2) have "?N \<le> 2 ^ nat ?k" by simp
  then have "1 / x \<le> 2 ^ nat ?k"
    by (simp add: ceiling_le_iff)
  with assms have lo: "1 / 2 ^ nat ?k \<le> x"
    by (simp add: field_simps)
  from b(1) have "2 ^ nat (?k - 1) < ?N" by simp
  then have "(2 :: real) ^ nat (?k - 1) < 1 / x"
    by (simp add: less_ceiling_iff)
  with assms have hi: "x < 1 / 2 ^ nat (?k - 1)"
    by (simp add: field_simps)
  have "(2 :: real) powi (- ?k) = 1 / 2 ^ nat ?k" "(2 :: real) powi (- ?k + 1) = 1 / 2 ^ nat (?k - 1)"
    using k by (simp_all add: power_int_def power_one_over nat_diff_distrib)
  with lo hi False show ?thesis by (simp add: ilog2_def)
qed

lemma round_half_even_error: "\<bar>of_int (round_half_even y) - y\<bar> \<le> 1 / 2"
  unfolding round_half_even_def Let_def by (simp add: abs_le_iff)

text \<open>Rounding moves a number by half a spacing at most, onto a multiple of the spacing.\<close>

lemma round_double_error: "\<bar>round_double x - x\<bar> \<le> quantum x / 2"
proof (cases "x = 0")
  case True
  then show ?thesis using quantum_pos [of x] by (simp add: round_double_def)
next
  case False
  let ?r = "of_int (round_half_even (x / quantum x)) :: real"
  have "?r * quantum x - x = (?r - x / quantum x) * quantum x"
    using quantum_pos [of x] by (simp add: field_simps)
  then have "\<bar>round_double x - x\<bar> = \<bar>?r - x / quantum x\<bar> * quantum x"
    using False quantum_pos [of x] by (simp add: round_double_def abs_mult)
  also have "\<dots> \<le> 1 / 2 * quantum x"
    using round_half_even_error [of "x / quantum x"] quantum_pos [of x]
    by (simp only: mult_le_cancel_right_pos)
  finally show ?thesis by simp
qed

lemmas float_eval =
  round_double_def quantum_def ilog2_def round_half_even_def bit_length.simps Let_def
  power_int_minus to_double_def finite_or_overflow_def float_op_def float_lit_def
  fsub_def fmod_def signed_inf_def



lemma to_double_bounded:
  assumes "0 \<le> x" "x \<le> of_int n" "n < 2 ^ 53"
  shows "to_double x = Fin (round_double x)"
proof -
  have "0 \<le> round_double x" using assms(1) by (rule round_double_nonneg)
  moreover have "round_double x \<le> of_int n" using assms by (rule round_double_le_int)
  moreover have "(of_int n :: real) < 2 ^ 53" using assms(3) by simp
  moreover have "(2 :: real) ^ 53 < 2 ^ 1024" by simp
  ultimately show ?thesis by (simp add: to_double_def Let_def)
qed

lemma as_float_small: "finite_or_overflow 100 = Inr (Fin 100)" "finite_or_overflow 255 = Inr (Fin 255)"
  by (simp_all add: float_eval)

lemma percent_ceiling:
  assumes "0 \<le> b" "b \<le> 1"
  shows "and_then (py_mul (FloatV (Fin b)) (IntV 100)) math_ceil = Inr \<lceil>round_double (b * 100)\<rceil>"
    and "0 \<le> \<lceil>round_double (b * 100)\<rceil>" and "\<lceil>round_double (b * 100)\<rceil> \<le> 100"
proof -
  from assms have r: "0 \<le> b * 100" "b * 100 \<le> of_int 100" by simp_all
  then have "to_double (b * 100) = Fin (round_double (b * 100))"
    by (rule to_double_bounded) simp
  then show "and_then (py_mul (FloatV (Fin b)) (IntV 100)) math_ceil = Inr \<lceil>round_double (b * 100)\<rceil>"
    by (simp add: float_op_def as_float_small)
  from r(1) have "0 \<le> round_double (b * 100)" by (rule round_double_nonneg)
  then show "0 \<le> \<lceil>round_double (b * 100)\<rceil>" by simp
  from r have "round_double (b * 100) \<le> of_int 100" by (rule round_double_le_int) simp
  then show "\<lceil>round_double (b * 100)\<rceil> \<le> 100" by (simp add: ceiling_le_iff)
qed

subsection \<open>Brightness and temperature\<close>

text \<open>
  Claim C4. For a float \<open>b\<close> between 0 and 1, \<^verbatim>\<open>convert_brightness\<close> returns the ceiling of
  the product \<^verbatim>\<open>b * 100\<close>, an integer between 0 and 100; the product is Python's, the
  exact product rounded to a double. \<^verbatim>\<open>convert_temperature\<close> returns the same. For the
  literals \<^verbatim>\<open>0.0\<close>, \<^verbatim>\<open>1.0\<close>, \<^verbatim>\<open>0.01\<close> and \<^verbatim>\<open>0.001\<close> the results are 0, 100, 1 and 1: the
  double nearest to 0.01 lies above 0.01, but its product with 100 rounds to the double
  1.0, and the ceiling of 0.1 is 1, not the nearest integer 0.
\<close>

theorem convert_brightness_ceiling:
  assumes "0 \<le> b" "b \<le> 1"
  shows "convert_brightness (FloatV (Fin b)) = Inr \<lceil>round_double (b * 100)\<rceil>
       \<and> convert_temperature (FloatV (Fin b)) = Inr \<lceil>round_double (b * 100)\<rceil>
       \<and> 0 \<le> \<lceil>round_double (b * 100)\<rceil> \<and> \<lceil>round_double (b * 100)\<rceil> \<le> 100
       \<and> convert_brightness (float_lit 0) = Inr 0
       \<and> convert_brightness (float_lit 1) = Inr 100
       \<and> convert_brightness (float_lit (1 / 100)) = Inr 1
       \<and> convert_brightness (float_lit (1 / 1000)) = Inr 1"
proof -
  have "convert_brightness (float_lit 0) = Inr 0"
    by (simp add: convert_brightness_def MAX_BRIGHTNESS_def float_eval)
  moreover have "convert_brightness (float_lit 1) = Inr 100"
    by (simp add: convert_brightness_def MAX_BRIGHTNESS_def float_eval)
  moreover have "convert_brightness (float_lit (1 / 100)) = Inr 1"
    by (simp add: convert_brightness_def MAX_BRIGHTNESS_def float_eval)
  moreover have "convert_brightness (float_lit (1 / 1000)) = Inr 1"
    by (simp add: convert_brightness_def MAX_BRIGHTNESS_def float_eval)
  ultimately show ?thesis
    using percent_ceiling [OF assms]
    by (simp add: convert_brightness_def convert_temperature_def MAX_BRIGHTNESS_def
        MAX_TEMPERATURE_def)
qed

theorem convert_brightness_ceiling_witness:
  "(0 :: real) \<le> 1261007895663739 / 2 ^ 54 \<and> (1261007895663739 / 2 ^ 54 :: real) \<le> 1
   \<and> convert_brightness (FloatV (Fin (1261007895663739 / 2 ^ 54))) = Inr 8
   \<and> convert_temperature (FloatV (Fin (1261007895663739 / 2 ^ 54))) = Inr 8"
proof -
  have r: "\<lceil>round_double (1261007895663739 / 2 ^ 54 * 100)\<rceil> = 8"
    by (simp add: float_eval)
  show ?thesis
    using convert_brightness_ceiling [of "1261007895663739 / 2 ^ 54", unfolded r] by simp
qed

subsection \<open>Colour\<close>









section \<open>The temperature of the white command set\<close>

text \<open>
  \<^verbatim>\<open>temperature\<close> hands its argument to \<^verbatim>\<open>_build_command\<close> as it is. An integer becomes the
  second command byte. A float, which is what the docstring asks for (0.0-1.0), makes
  the sum of the checksum a float, and no frame is returned.
\<close>

lemma int_temperature_frame:
  "call (new WhiteV6 b g) (Temperature (IntV t)) = build_command (new WhiteV6 b g) (IntV 5) (IntV t)"
  by (simp add: call_def WhiteV6_temperature_def)

lemma float_temperature_no_frame:
  "call (new WhiteV6 b g) (Temperature (FloatV f)) \<noteq> Inr cmd"
  by (auto simp: call_def WhiteV6_temperature_def dest: build_command_Inr_int)

text \<open>
  Claim C6 at the temperature \<^verbatim>\<open>0.5\<close>: the operator \<^verbatim>\<open>&\<close> of the checksum raises
  \<^verbatim>\<open>TypeError\<close>.
\<close>

theorem white_temperature_float:
  "call (new WhiteV6 \<lparr>wb1 = 0x11, wb2 = 0x22, sn = 0x05\<rparr> 1) (Temperature (float_lit (1 / 2)))
     = Inl TypeError"
  by (simp add: call_def new_def WhiteV6_temperature_def build_command_def py_sum_def
      PASSWORD_BYTE1_def PASSWORD_BYTE2_def float_eval)

section \<open>The methods against the opcode table\<close>

lemma with_int_converted: "with_int r f = and_then (converted r) f"
  by (cases r) (simp_all add: converted_def)

lemma call_spec_table:
  "call (new v b g) op =
     (case spec_table v op of
        None \<Rightarrow> Inl AttributeError
      | Some (cmd1, r) \<Rightarrow> and_then r (build_command (new v b g) (IntV cmd1)))"
  by (cases v; cases op) (simp_all add: call_def method_defs with_int_converted)

lemma remote_style_spec: "REMOTE_STYLE v = spec_remote_style v"
  by (cases v) simp_all

text \<open>
  Claim C1. \<^verbatim>\<open>_build_command\<close> with the command bytes \<open>cmd1\<close> and \<open>cmd2\<close> returns a command
  of exactly these 22 numbers: \<open>0x80, 0, 0, 0, 0x11\<close>, the two session bytes, \<open>0\<close>, the
  sequence number, \<open>0\<close>; then \<open>0x31\<close>, the two password bytes \<open>0\<close>, the remote style,
  \<open>cmd1\<close>, and \<open>cmd2\<close> four times; then the group number and \<open>0\<close>; and last the sum of
  the eleven numbers from \<open>0x31\<close> on, modulo 256. The command carries the group number.
  Every command that a method of one of the four classes returns is this frame, with
  the remote style of the class and with the two command bytes that the opcode table
  gives for the operation.
\<close>

theorem frame_layout:
  "build_command self (IntV cmd1) (IntV cmd2) =
     Inr \<lparr>bytes = map IntV
            [0x80, 0x00, 0x00, 0x00, 0x11, wb1 (cs_bridge self), wb2 (cs_bridge self), 0x00,
             sn (cs_bridge self), 0x00,
             0x31, 0x00, 0x00, cs_remote_style self, cmd1, cmd2, cmd2, cmd2, cmd2,
             cs_group_number self, 0x00,
             (0x31 + 0x00 + 0x00 + cs_remote_style self + cmd1 + cmd2 + cmd2 + cmd2 + cmd2
                + cs_group_number self + 0x00) mod 256],
          group_number = cs_group_number self\<rparr>
   \<and> (call (new v b g) op = Inr cmd \<longrightarrow>
        (\<exists>c1 c2. spec_table v op = Some (c1, Inr (IntV c2))
           \<and> cmd = \<lparr>bytes = map IntV
                  [0x80, 0x00, 0x00, 0x00, 0x11, wb1 b, wb2 b, 0x00, sn b, 0x00,
                   0x31, 0x00, 0x00, REMOTE_STYLE v, c1, c2, c2, c2, c2,
                   g, 0x00,
                   (0x31 + 0x00 + 0x00 + REMOTE_STYLE v + c1 + c2 + c2 + c2 + c2 + g + 0x00)
                     mod 256],
                group_number = g\<rparr>
           \<and> length (bytes cmd) = 22))"
proof (intro conjI impI)
  show "build_command self (IntV cmd1) (IntV cmd2) =
     Inr \<lparr>bytes = map IntV
            [0x80, 0x00, 0x00, 0x00, 0x11, wb1 (cs_bridge self), wb2 (cs_bridge self), 0x00,
             sn (cs_bridge self), 0x00,
             0x31, 0x00, 0x00, cs_remote_style self, cmd1, cmd2, cmd2, cmd2, cmd2,
             cs_group_number self, 0x00,
             (0x31 + 0x00 + 0x00 + cs_remote_style self + cmd1 + cmd2 + cmd2 + cmd2 + cmd2
                + cs_group_number self + 0x00) mod 256],
          group_number = cs_group_number self\<rparr>"
    by (simp add: build_command_int)
next
  assume h: "call (new v b g) op = Inr cmd"
  then obtain c1 r where t: "spec_table v op = Some (c1, r)"
    and a: "and_then r (build_command (new v b g) (IntV c1)) = Inr cmd"
    by (auto simp: call_spec_table split: option.splits)
  from a obtain x where r: "r = Inr x" and bc: "build_command (new v b g) (IntV c1) x = Inr cmd"
    by (auto simp: and_then_eq_Inr)
  from bc obtain c2 where x: "x = IntV c2"
    using build_command_Inr_int by blast
  from bc have "cmd = \<lparr>bytes = map IntV
                  [0x80, 0x00, 0x00, 0x00, 0x11, wb1 b, wb2 b, 0x00, sn b, 0x00,
                   0x31, 0x00, 0x00, REMOTE_STYLE v, c1, c2, c2, c2, c2,
                   g, 0x00,
                   (0x31 + 0x00 + 0x00 + REMOTE_STYLE v + c1 + c2 + c2 + c2 + c2 + g + 0x00)
                     mod 256],
                group_number = g\<rparr>"
    unfolding x build_command_int by (simp add: new_def)
  with t r x show "\<exists>c1 c2. spec_table v op = Some (c1, Inr (IntV c2))
           \<and> cmd = \<lparr>bytes = map IntV
                  [0x80, 0x00, 0x00, 0x00, 0x11, wb1 b, wb2 b, 0x00, sn b, 0x00,
                   0x31, 0x00, 0x00, REMOTE_STYLE v, c1, c2, c2, c2, c2,
                   g, 0x00,
                   (0x31 + 0x00 + 0x00 + REMOTE_STYLE v + c1 + c2 + c2 + c2 + c2 + g + 0x00)
                     mod 256],
                group_number = g\<rparr>
           \<and> length (bytes cmd) = 22"
    by simp
qed

theorem frame_layout_witness:
  "call (new RgbwV6 \<lparr>wb1 = 0x4A, wb2 = 0x0B, sn = 0x01\<rparr> 2) White =
     Inr \<lparr>bytes = map IntV
            [0x80, 0x00, 0x00, 0x00, 0x11, 0x4A, 0x0B, 0x00, 0x01, 0x00,
             0x31, 0x00, 0x00, 0x08, 0x05, 0x64, 0x64, 0x64, 0x64, 2, 0x00, 0xD0],
          group_number = 2\<rparr>"
proof -
  obtain cmd where h: "call (new RgbwV6 \<lparr>wb1 = 0x4A, wb2 = 0x0B, sn = 0x01\<rparr> 2) White = Inr cmd"
    by (simp add: call_def new_def RgbwV6_white_def build_command_int)
  from frame_layout [THEN conjunct2, THEN mp, OF h]
  have "cmd = \<lparr>bytes = map IntV
            [0x80, 0x00, 0x00, 0x00, 0x11, 0x4A, 0x0B, 0x00, 0x01, 0x00,
             0x31, 0x00, 0x00, 0x08, 0x05, 0x64, 0x64, 0x64, 0x64, 2, 0x00, 0xD0],
          group_number = 2\<rparr>"
    by auto
  with h show ?thesis by simp
qed

text \<open>
  Claim C3. Where the table of the design document gives a variant and an operation the
  command bytes \<open>cmd1\<close> and \<open>cmd2\<close> (a constant, or the converted argument when the
  conversion returns), the method of the class returns a frame that has the remote style
  of the variant at offset 13 (\<open>0x00\<close> for the bridge light, \<open>0x08\<close> for white and RGBW,
  \<open>0x07\<close> for RGBWW), \<open>cmd1\<close> at offset 14 and \<open>cmd2\<close> at offsets 15 to 18.
\<close>

theorem opcode_table:
  assumes "spec_table v op = Some (cmd1, Inr (IntV cmd2))"
  shows "\<exists>cmd. call (new v b g) op = Inr cmd
           \<and> bytes cmd ! 13 = IntV (spec_remote_style v)
           \<and> bytes cmd ! 14 = IntV cmd1
           \<and> bytes cmd ! 15 = IntV cmd2 \<and> bytes cmd ! 16 = IntV cmd2
           \<and> bytes cmd ! 17 = IntV cmd2 \<and> bytes cmd ! 18 = IntV cmd2"
proof -
  from assms have "call (new v b g) op = build_command (new v b g) (IntV cmd1) (IntV cmd2)"
    by (simp add: call_spec_table)
  then show ?thesis
    unfolding build_command_int by (simp add: new_def remote_style_spec)
qed

theorem opcode_table_witness:
  "spec_table RgbwwV6 (Brightness (float_lit (1 / 2))) = Some (0x02, Inr (IntV 50))
   \<and> (\<exists>cmd. call (new RgbwwV6 \<lparr>wb1 = 0x5C, wb2 = 0x5D, sn = 0x09\<rparr> 4)
                (Brightness (float_lit (1 / 2))) = Inr cmd
           \<and> bytes cmd ! 13 = IntV 0x07
           \<and> bytes cmd ! 14 = IntV 0x02
           \<and> bytes cmd ! 15 = IntV 50 \<and> bytes cmd ! 16 = IntV 50
           \<and> bytes cmd ! 17 = IntV 50 \<and> bytes cmd ! 18 = IntV 50)"
proof -
  have h: "spec_table RgbwwV6 (Brightness (float_lit (1 / 2))) = Some (0x02, Inr (IntV 50))"
    by (simp add: converted_def convert_brightness_def MAX_BRIGHTNESS_def float_eval)
  from opcode_table [OF h, of "\<lparr>wb1 = 0x5C, wb2 = 0x5D, sn = 0x09\<rparr>" 4] h
  show ?thesis by simp
qed

end
